theory Spec2Isabelle
  imports Complex_Main "HOL-Library.AList"
begin

chapter \<open>The model\<close>

section \<open>Numbers\<close>

text \<open>
  A JavaScript \<^verbatim>\<open>number\<close> (and a TensorFlow.js tensor element) is modelled as an exact
  real: rounding is not modelled, and the inputs of the analysis functions are finite
  numbers. What the analysis code does depend on is division by zero, which in IEEE
  arithmetic does not raise but yields \<^verbatim>\<open>NaN\<close> (for 0/0) or an infinity, and every
  comparison with \<^verbatim>\<open>NaN\<close> is false. Results of divisions therefore live in \<open>num\<close>.
\<close>

datatype num = Num real | PInf | NInf | NaN

definition fdiv :: "real \<Rightarrow> real \<Rightarrow> num" where
  "fdiv a b = (if b \<noteq> 0 then Num (a / b)
               else if a = 0 then NaN else if a > 0 then PInf else NInf)"

text \<open>Product of a finite weight with a tensor element.\<close>

fun scale :: "real \<Rightarrow> num \<Rightarrow> num" where
  "scale w (Num x) = Num (w * x)"
| "scale w NaN = NaN"
| "scale w PInf = (if w = 0 then NaN else if w > 0 then PInf else NInf)"
| "scale w NInf = (if w = 0 then NaN else if w > 0 then NInf else PInf)"

fun nadd :: "num \<Rightarrow> num \<Rightarrow> num" where
  "nadd (Num a) (Num b) = Num (a + b)"
| "nadd NaN _ = NaN"
| "nadd _ NaN = NaN"
| "nadd PInf NInf = NaN"
| "nadd NInf PInf = NaN"
| "nadd PInf _ = PInf"
| "nadd _ PInf = PInf"
| "nadd NInf _ = NInf"
| "nadd _ NInf = NInf"

text \<open>\<^verbatim>\<open>Math.abs\<close> and the comparison \<^verbatim>\<open>x > c\<close> against a finite constant.\<close>

fun nabs :: "num \<Rightarrow> num" where
  "nabs (Num x) = Num \<bar>x\<bar>"
| "nabs PInf = PInf"
| "nabs NInf = PInf"
| "nabs NaN = NaN"

fun gt :: "num \<Rightarrow> real \<Rightarrow> bool" where
  "gt (Num x) c = (x > c)"
| "gt PInf c = True"
| "gt NInf c = False"
| "gt NaN c = False"

text \<open>\<^verbatim>\<open>xs.slice(-n)\<close>: the last \<open>n\<close> elements, all of them when there are fewer.\<close>

definition slice_last :: "nat \<Rightarrow> 'a list \<Rightarrow> 'a list" where
  "slice_last n xs = drop (length xs - n) xs"

section \<open>Price history buffer (WebSocketManager.updatePriceHistory)\<close>

text \<open>
  The field \<^verbatim>\<open>priceHistory: Map<string, number[]>\<close> is a finite map from symbols to
  lists, oldest price first. \<^verbatim>\<open>push\<close> appends at the end, \<^verbatim>\<open>shift\<close> removes the head.
\<close>

type_synonym price_history = "string \<rightharpoonup> real list"

definition updatePriceHistory :: "string \<Rightarrow> real \<Rightarrow> price_history \<Rightarrow> price_history" where
  "updatePriceHistory symbol price ph =
     (let ph1 = (if ph symbol = None then ph(symbol \<mapsto> []) else ph);
          history = (case ph1 symbol of Some h \<Rightarrow> h | None \<Rightarrow> []);
          pushed = history @ [price];
          shifted = (if length pushed > 100 then tl pushed else pushed)
      in ph1(symbol \<mapsto> shifted))"

text \<open>A run of the feed: the appends it performs, in order, on a manager state.\<close>

fun appendAll :: "(string \<times> real) list \<Rightarrow> price_history \<Rightarrow> price_history" where
  "appendAll [] ph = ph"
| "appendAll ((symbol, price) # rest) ph = appendAll rest (updatePriceHistory symbol price ph)"

text \<open>The prices appended for one symbol, in append order.\<close>

definition appendedFor :: "string \<Rightarrow> (string \<times> real) list \<Rightarrow> real list" where
  "appendedFor symbol evs = map snd (filter (\<lambda>e. fst e = symbol) evs)"

text \<open>\<^verbatim>\<open>this.priceHistory.get(symbol) || []\<close>, as analyzeTechnicals reads it.\<close>

definition stored :: "price_history \<Rightarrow> string \<Rightarrow> real list" where
  "stored ph symbol = (case ph symbol of Some h \<Rightarrow> h | None \<Rightarrow> [])"

section \<open>Advisory cache (AIAnalysisService.analyzeMarket)\<close>

datatype recommendation = buy | sell | hold

datatype risk_level = low | medium | high

record AIAnalysisResult =
  recommendation :: recommendation
  confidence :: real
  reasoning :: "string list"
  marketSentiment :: string
  riskLevel :: risk_level

record cache_entry =
  result :: AIAnalysisResult
  timestamp :: int

text \<open>
  The service object: its \<^verbatim>\<open>analysisCache\<close>, and a log of the symbols for which the
  OpenAI endpoint has been called (the log is not in the source; it makes "the oracle was
  not invoked" a statement about the state).
\<close>

record service =
  analysisCache :: "string \<rightharpoonup> cache_entry"
  oracleCalls :: "string list"

definition newService :: service where
  "newService = \<lparr>analysisCache = Map.empty, oracleCalls = []\<rparr>"

definition CACHE_DURATION :: int where
  "CACHE_DURATION = 10000"

text \<open>
  What one call meets in its environment: the two readings of \<^verbatim>\<open>Date.now()\<close> (at the
  cache check, and when the outcome is stored, after the await), in milliseconds; and what
  the request to the endpoint followed by \<^verbatim>\<open>JSON.parse\<close> would produce if it is made, a
  parsed analysis or an exception. The request text (the market context built from the
  price and the technical data) only travels to the endpoint, whose reply is an input here,
  so it is not part of the model.
\<close>

datatype exn = OracleError

datatype oracle_reply = Reply AIAnalysisResult | Failure

record call_env =
  nowAtCheck :: int
  oracleReply :: oracle_reply
  nowAtStore :: int

definition defaultResult :: AIAnalysisResult where
  "defaultResult =
     \<lparr>recommendation = hold, confidence = 0.5,
      reasoning = [''Technical analysis system is calibrating''],
      marketSentiment = ''neutral'', riskLevel = medium\<rparr>"

text \<open>
  A call runs in two stretches, separated by the \<^verbatim>\<open>await\<close> of the endpoint's reply. Between
  the two, other calls may run, also for the same symbol: the timer of the market loop fires
  every second whether or not the previous tick has finished.

  The first stretch, from the cache check to the request: \<open>Some\<close> is the result returned
  from the cache; \<open>None\<close> means the request has been sent and the call is suspended.
\<close>

definition startCall :: "call_env \<Rightarrow> string \<Rightarrow> service \<Rightarrow> AIAnalysisResult option \<times> service" where
  "startCall env symbol sv =
     (case analysisCache sv symbol of
        Some cached \<Rightarrow>
          if nowAtCheck env - timestamp cached < CACHE_DURATION
          then (Some (result cached), sv)
          else (None, sv\<lparr>oracleCalls := oracleCalls sv @ [symbol]\<rparr>)
      | None \<Rightarrow> (None, sv\<lparr>oracleCalls := oracleCalls sv @ [symbol]\<rparr>))"

text \<open>
  The second stretch, from the reply on. First the rest of the \<^verbatim>\<open>try\<close> block, where \<open>Inl\<close>
  is an exception on its way to the \<^verbatim>\<open>catch\<close>; then the \<^verbatim>\<open>catch\<close> around it.
\<close>

definition tryResume :: "call_env \<Rightarrow> string \<Rightarrow> service \<Rightarrow> (exn + AIAnalysisResult) \<times> service" where
  "tryResume env symbol sv =
     (case oracleReply env of
        Failure \<Rightarrow> (Inl OracleError, sv)
      | Reply analysis \<Rightarrow>
          (Inr analysis,
           sv\<lparr>analysisCache := (analysisCache sv)
                  (symbol \<mapsto> \<lparr>result = analysis, timestamp = nowAtStore env\<rparr>)\<rparr>))"

definition resumeCall :: "call_env \<Rightarrow> string \<Rightarrow> service \<Rightarrow> AIAnalysisResult \<times> service" where
  "resumeCall env symbol sv =
     (case tryResume env symbol sv of
        (Inr analysis, sv1) \<Rightarrow> (analysis, sv1)
      | (Inl error, sv1) \<Rightarrow>
          (defaultResult,
           sv1\<lparr>analysisCache := (analysisCache sv1)
                  (symbol \<mapsto> \<lparr>result = defaultResult, timestamp = nowAtStore env\<rparr>)\<rparr>))"

text \<open>
  A whole call with which no other call interleaves: the second stretch runs on the state
  the first one left.
\<close>

definition analyzeMarket :: "call_env \<Rightarrow> string \<Rightarrow> service \<Rightarrow> AIAnalysisResult \<times> service" where
  "analyzeMarket env symbol sv =
     (case startCall env symbol sv of
        (Some cachedResult, sv1) \<Rightarrow> (cachedResult, sv1)
      | (None, sv1) \<Rightarrow> resumeCall env symbol sv1)"

text \<open>
  The fallback as the specification words it, for comparison with \<open>defaultResult\<close>.
\<close>

definition specifiedFallback :: AIAnalysisResult where
  "specifiedFallback =
     \<lparr>recommendation = hold, confidence = 0.5,
      reasoning = [''insufficient data''],
      marketSentiment = ''neutral'', riskLevel = medium\<rparr>"

text \<open>
  Fixtures for concrete runs: two analyses the endpoint may return, a call during which
  the clock reads \<open>t\<close> throughout, and the service after a first fetch at time 0 and
  after a second call 9.5 seconds later, each call made after the one before has returned.
\<close>

definition bullish :: AIAnalysisResult where
  "bullish =
     \<lparr>recommendation = buy, confidence = 0.8, reasoning = [''uptrend''],
      marketSentiment = ''bullish'', riskLevel = low\<rparr>"

definition bearish :: AIAnalysisResult where
  "bearish =
     \<lparr>recommendation = sell, confidence = 0.7, reasoning = [''downtrend''],
      marketSentiment = ''bearish'', riskLevel = high\<rparr>"

definition callAt :: "int \<Rightarrow> oracle_reply \<Rightarrow> call_env" where
  "callAt t r = \<lparr>nowAtCheck = t, oracleReply = r, nowAtStore = t\<rparr>"

definition svAfterFetch :: service where
  "svAfterFetch = snd (analyzeMarket (callAt 0 (Reply bullish)) ''BTC/USD'' newService)"

definition svAfterHit :: service where
  "svAfterHit = snd (analyzeMarket (callAt 9500 (Reply bearish)) ''BTC/USD'' svAfterFetch)"

text \<open>
  Two overlapping calls: the first checks the cache at time 0 and gets its reply at 4 s;
  the second starts at 1 s. \<open>svDuringFetch\<close> is the service while the first call waits.
\<close>

definition slowCall :: call_env where
  "slowCall = \<lparr>nowAtCheck = 0, oracleReply = Reply bullish, nowAtStore = 4000\<rparr>"

definition overlappingCall :: call_env where
  "overlappingCall = \<lparr>nowAtCheck = 1000, oracleReply = Reply bearish, nowAtStore = 5000\<rparr>"

definition svDuringFetch :: service where
  "svDuringFetch = snd (startCall slowCall ''BTC/USD'' newService)"

section \<open>Pattern detection (TechnicalAnalysisService.detectPatterns)\<close>

datatype pattern_type = triangle | head_and_shoulders | double_top | double_bottom

record PatternResult =
  type :: pattern_type
  confidence :: num
  startIndex :: nat
  endIndex :: nat

definition PATTERN_WINDOW :: nat where
  "PATTERN_WINDOW = 30"

text \<open>A tensor: its shape, and its values in row-major order.\<close>

record 'a tensor =
  shape :: "nat list"
  vals :: "'a list"

definition reshape :: "'a tensor \<Rightarrow> nat list \<Rightarrow> 'a tensor" where
  "reshape t newShape = t\<lparr>shape := newShape\<rparr>"

text \<open>
  \<^verbatim>\<open>tf.min\<close> and \<^verbatim>\<open>tf.max\<close> over all elements of a tensor. The tensor they are applied to
  holds the 30 prices of the window, so it is never empty.
\<close>

definition tf_min :: "real list \<Rightarrow> real" where
  "tf_min xs = fold min (tl xs) (hd xs)"

definition tf_max :: "real list \<Rightarrow> real" where
  "tf_max xs = fold max (tl xs) (hd xs)"

text \<open>
  \<^verbatim>\<open>tf.div(tf.sub(x, tf.min(x)), tf.sub(tf.max(x), tf.min(x)))\<close>, element by element. There
  is no test for \<^verbatim>\<open>max == min\<close> in the source: on a flat window every element is 0/0.
\<close>

definition normalized :: "real tensor \<Rightarrow> num tensor" where
  "normalized inputTensor =
     (let mn = tf_min (vals inputTensor); mx = tf_max (vals inputTensor)
      in \<lparr>shape = shape inputTensor,
          vals = map (\<lambda>x. fdiv (x - mn) (mx - mn)) (vals inputTensor)\<rparr>)"

text \<open>The two kernels, \<^verbatim>\<open>tf.tensor4d(values, [1, 5, 1, 1])\<close>.\<close>

definition triangleKernel :: "real tensor" where
  "triangleKernel = \<lparr>shape = [1, 5, 1, 1], vals = [1, 1/2, 0, -1/2, -1]\<rparr>"

definition hsKernel :: "real tensor" where
  "hsKernel = \<lparr>shape = [1, 5, 1, 1], vals = [1, -1, 2, -1, 1]\<rparr>"

text \<open>
  \<^verbatim>\<open>tf.conv2d(x, filter, 1, 'valid')\<close>. The input has shape \<open>[batch, height, width,
  channels]\<close>, the filter \<open>[height, width, channels in, channels out]\<close>. With stride 1 and no
  padding the output has \<open>height - filter height + 1\<close> rows and \<open>width - filter width + 1\<close>
  columns; when one of the two is negative no output tensor can be made and the call
  throws. The values are written out for one batch and one channel, which is all the
  source uses: the output at \<open>(h, w)\<close> is the sum of the products of the filter (not
  flipped) with the input under it.
\<close>

datatype tf_error = NegativeOutputSize | RankMismatch

definition response :: "num tensor \<Rightarrow> real tensor \<Rightarrow> nat \<Rightarrow> nat \<Rightarrow> nat \<Rightarrow> nat \<Rightarrow> nat \<Rightarrow> num" where
  "response x filt inWidth filterHeight filterWidth h w =
     foldl nadd (Num 0)
       (concat (map (\<lambda>i. map (\<lambda>j. scale (vals filt ! (i * filterWidth + j))
                                       (vals x ! ((h + i) * inWidth + (w + j))))
                           [0..<filterWidth])
                    [0..<filterHeight]))"

definition conv2d_valid :: "num tensor \<Rightarrow> real tensor \<Rightarrow> tf_error + num tensor" where
  "conv2d_valid x filt =
     (case shape x of
        [batch, inHeight, inWidth, inChannels] \<Rightarrow>
          (case shape filt of
             [filterHeight, filterWidth, inDepth, outDepth] \<Rightarrow>
               let outHeight = int inHeight - int filterHeight + 1;
                   outWidth = int inWidth - int filterWidth + 1
               in if outHeight < 0 \<or> outWidth < 0 then Inl NegativeOutputSize
                  else Inr \<lparr>shape = [batch, nat outHeight, nat outWidth, outDepth],
                            vals = concat (map (\<lambda>h. map (response x filt inWidth filterHeight filterWidth h)
                                                       [0..<nat outWidth])
                                               [0..<nat outHeight])\<rparr>
           | _ \<Rightarrow> Inl RankMismatch)
      | _ \<Rightarrow> Inl RankMismatch)"

text \<open>The body of each of the two \<^verbatim>\<open>for\<close> loops, and the two loops one after the other.\<close>

definition pushIfConfident ::
  "pattern_type \<Rightarrow> num list \<Rightarrow> PatternResult list \<Rightarrow> nat \<Rightarrow> PatternResult list" where
  "pushIfConfident ty data patterns i =
     (let c = nabs (data ! i)
      in if gt c (7/10)
         then patterns @ [\<lparr>type = ty, confidence = c, startIndex = i, endIndex = i + 4\<rparr>]
         else patterns)"

definition collectPatterns :: "num list \<Rightarrow> num list \<Rightarrow> PatternResult list" where
  "collectPatterns triangleData hsData =
     (let patterns1 = foldl (pushIfConfident triangle triangleData) []
                        [0..<length triangleData];
          patterns2 = foldl (pushIfConfident head_and_shoulders hsData) patterns1
                        [0..<length hsData]
      in patterns2)"

text \<open>
  The \<^verbatim>\<open>try\<close> block. The window tensor has shape \<open>[1, 30, 1]\<close> and is reshaped to
  \<open>[1, 30, 1, 1]\<close>: 30 rows of one column. \<open>Inl\<close> is an exception on its way to the
  \<^verbatim>\<open>catch\<close>. Were a convolution to return, \<^verbatim>\<open>squeeze().array()\<close> would hand its values to
  the loops as a flat array.
\<close>

definition detectPatternsBody :: "real list \<Rightarrow> tf_error + PatternResult list" where
  "detectPatternsBody prices =
     (let priceWindow = slice_last PATTERN_WINDOW prices;
          inputTensor = \<lparr>shape = [1, PATTERN_WINDOW, 1], vals = priceWindow\<rparr>;
          normalizedTensor = normalized inputTensor
      in case conv2d_valid (reshape normalizedTensor [1, PATTERN_WINDOW, 1, 1]) triangleKernel of
           Inl error \<Rightarrow> Inl error
         | Inr triangleConv \<Rightarrow>
             (case conv2d_valid (reshape normalizedTensor [1, PATTERN_WINDOW, 1, 1]) hsKernel of
                Inl error \<Rightarrow> Inl error
              | Inr hsConv \<Rightarrow> Inr (collectPatterns (vals triangleConv) (vals hsConv))))"

text \<open>The length test, the \<^verbatim>\<open>try\<close> block, and the \<^verbatim>\<open>catch\<close>, which logs and returns \<^verbatim>\<open>[]\<close>.\<close>

definition detectPatterns :: "real list \<Rightarrow> PatternResult list" where
  "detectPatterns prices =
     (if length prices < PATTERN_WINDOW then []
      else case detectPatternsBody prices of
             Inr patterns \<Rightarrow> patterns
           | Inl error \<Rightarrow> [])"


section \<open>Volatility (TechnicalAnalysisService.calculateVolatility)\<close>

datatype trend = increasing | decreasing | stable

record RiskMetrics =
  valueAtRisk :: num
  expectedShortfall :: num

record VolatilityMetrics =
  historicalVolatility :: real
  relativeVolatility :: num
  volatilityTrend :: trend
  riskMetrics :: RiskMetrics

definition VOLATILITY_WINDOW :: nat where
  "VOLATILITY_WINDOW = 30"

text \<open>
  The log returns \<^verbatim>\<open>Math.log(prices[i] / prices[i - 1])\<close> for \<open>i = 1, \<dots>\<close>. The model is
  meant for the positive prices of the feed, where each quotient is positive and finite.
\<close>

definition logReturns :: "real list \<Rightarrow> real list" where
  "logReturns prices = map (\<lambda>i. ln (prices ! i / prices ! (i - 1))) [1..<length prices]"

text \<open>\<^verbatim>\<open>tf.moments(x).variance\<close>: the mean squared deviation from the mean.\<close>

definition tf_variance :: "real list \<Rightarrow> real" where
  "tf_variance xs =
     (let n = real (length xs); mean = sum_list xs / n
      in sum_list (map (\<lambda>x. (x - mean)\<^sup>2) xs) / n)"

text \<open>\<^verbatim>\<open>Math.floor(returns.length * 0.05)\<close>.\<close>

definition varIndexOf :: "real list \<Rightarrow> nat" where
  "varIndexOf returns = nat \<lfloor>real (length returns) * (5/100)\<rfloor>"

text \<open>\<^verbatim>\<open>-sortedReturns[varIndex]\<close>: reading past the end gives \<^verbatim>\<open>undefined\<close>, negated to NaN.\<close>

definition negatedAt :: "real list \<Rightarrow> nat \<Rightarrow> num" where
  "negatedAt xs i = (if i < length xs then Num (- (xs ! i)) else NaN)"

definition calculateVolatility :: "real list \<Rightarrow> VolatilityMetrics option" where
  "calculateVolatility prices =
     (if length prices < VOLATILITY_WINDOW then None
      else
        let returns = logReturns prices;
            historicalVol = sqrt (tf_variance returns) * sqrt 252;
            recentReturns = slice_last VOLATILITY_WINDOW returns;
            recentVol = sqrt (tf_variance recentReturns) * sqrt 252;
            trend = (if recentVol > historicalVol * (11/10) then increasing
                     else if recentVol < historicalVol * (9/10) then decreasing
                     else stable);
            sortedReturns = sort returns;
            varIndex = varIndexOf returns;
            valueAtRisk = negatedAt sortedReturns varIndex;
            tailReturns = take varIndex sortedReturns;
            expectedShortfall = fdiv (- foldl (+) 0 tailReturns) (real varIndex)
        in Some \<lparr>historicalVolatility = historicalVol,
                 relativeVolatility = fdiv recentVol historicalVol,
                 volatilityTrend = trend,
                 riskMetrics = \<lparr>valueAtRisk = valueAtRisk,
                                expectedShortfall = expectedShortfall\<rparr>\<rparr>)"

section \<open>Market snapshots and the subscriber hub (WebSocketManager)\<close>

record PatternAnalysis =
  patterns :: "PatternResult list"

record MarketData =
  symbol :: string
  exchange :: string
  price :: real
  volume24h :: real
  timestamp :: int
  patternAnalysis :: "PatternAnalysis option"
  volatilityMetrics :: "VolatilityMetrics option"
  aiAnalysis :: "AIAnalysisResult option"

text \<open>
  A socket of the \<^verbatim>\<open>ws\<close> library, as far as the manager deals with it. The library is
  not part of the repository, so how a socket reacts to \<^verbatim>\<open>send\<close> is a property of the
  socket: it takes the frame, or it takes the frame into its buffer while the peer has
  stopped reading (the call returns as usual and nothing ever reports the delay), or the
  call throws. \<open>sendCalls\<close> logs every frame passed to \<^verbatim>\<open>send\<close>, \<open>outbox\<close> the frames of the
  calls that returned.
\<close>

datatype ready_state = CONNECTING | OPEN | CLOSING | CLOSED

datatype send_behaviour = Accepts | Stalls | Throws

record 'm socket =
  readyState :: ready_state
  behaviour :: send_behaviour
  sendCalls :: "'m list"
  outbox :: "'m list"

text \<open>The result is whether the call returned (\<open>False\<close>: it threw), and the socket after it.\<close>

definition send :: "'m \<Rightarrow> 'm socket \<Rightarrow> bool \<times> 'm socket" where
  "send data s =
     (let s1 = s\<lparr>sendCalls := sendCalls s @ [data]\<rparr>
      in if behaviour s1 = Throws then (False, s1)
         else (True, s1\<lparr>outbox := outbox s1 @ [data]\<rparr>))"

text \<open>
  The manager. Sockets are objects shared by reference: \<open>sockets\<close> is the store holding
  them, \<open>clients\<close> the \<^verbatim>\<open>Set<WebSocket>\<close> in insertion order, \<open>lastMarketData\<close> the
  \<^verbatim>\<open>Map<string, MarketData>\<close> in insertion order (so that \<^verbatim>\<open>forEach\<close> is a left fold).
\<close>

type_synonym ws = nat

record 'm manager =
  clients :: "ws list"
  sockets :: "ws \<Rightarrow> 'm socket"
  lastMarketData :: "(string \<times> MarketData) list"

definition newManager :: "(ws \<Rightarrow> 'm socket) \<Rightarrow> 'm manager" where
  "newManager socks = \<lparr>clients = [], sockets = socks, lastMarketData = []\<rparr>"

definition setAdd :: "'a \<Rightarrow> 'a list \<Rightarrow> 'a list" where
  "setAdd x xs = (if x \<in> set xs then xs else xs @ [x])"

definition wsSend :: "ws \<Rightarrow> 'm \<Rightarrow> 'm manager \<Rightarrow> bool \<times> 'm manager" where
  "wsSend client data mg =
     (case send data (sockets mg client) of
        (returned, s) \<Rightarrow> (returned, mg\<lparr>sockets := (sockets mg)(client := s)\<rparr>))"

text \<open>
  The \<^verbatim>\<open>connection\<close> handler: add the socket, then send it every stored snapshot; an
  exception of \<^verbatim>\<open>send\<close> is caught and logged, and the loop goes on. The test
  \<^verbatim>\<open>if (data)\<close> is always true of a stored object. \<open>stringify\<close> stands for
  \<^verbatim>\<open>JSON.stringify\<close>.
\<close>

definition sendInitial :: "(MarketData \<Rightarrow> 'm) \<Rightarrow> ws \<Rightarrow> 'm manager \<Rightarrow> string \<times> MarketData \<Rightarrow> 'm manager" where
  "sendInitial stringify client mg entry = snd (wsSend client (stringify (snd entry)) mg)"

definition onConnection :: "(MarketData \<Rightarrow> 'm) \<Rightarrow> ws \<Rightarrow> 'm manager \<Rightarrow> 'm manager" where
  "onConnection stringify client mg =
     (let mg1 = mg\<lparr>clients := setAdd client (clients mg)\<rparr>
      in foldl (sendInitial stringify client) mg1 (lastMarketData mg1))"

text \<open>The \<^verbatim>\<open>close\<close> and \<^verbatim>\<open>error\<close> handlers of a socket.\<close>

definition onClose :: "ws \<Rightarrow> 'm manager \<Rightarrow> 'm manager" where
  "onClose client mg = mg\<lparr>clients := removeAll client (clients mg)\<rparr>"

text \<open>
  \<^verbatim>\<open>broadcast\<close>: the body of the \<^verbatim>\<open>forEach\<close>, and the loop over the set. Deleting the
  element being visited does not disturb the visit of the others.
\<close>

definition broadcastTo :: "'m \<Rightarrow> 'm manager \<Rightarrow> ws \<Rightarrow> 'm manager" where
  "broadcastTo data mg client =
     (if readyState (sockets mg client) = OPEN
      then (case wsSend client data mg of
              (returned, mg1) \<Rightarrow>
                if returned then mg1
                else mg1\<lparr>clients := removeAll client (clients mg1)\<rparr>)
      else mg)"

definition broadcast :: "'m \<Rightarrow> 'm manager \<Rightarrow> 'm manager" where
  "broadcast data mg = foldl (broadcastTo data) mg (clients mg)"

text \<open>
  The end of one symbol's turn in the market loop:
  \<^verbatim>\<open>this.lastMarketData.set(symbol, marketData); this.broadcast(JSON.stringify(marketData))\<close>.
\<close>

definition publish :: "(MarketData \<Rightarrow> 'm) \<Rightarrow> MarketData \<Rightarrow> 'm manager \<Rightarrow> 'm manager" where
  "publish stringify marketData mg =
     broadcast (stringify marketData)
       (mg\<lparr>lastMarketData := AList.update (symbol marketData) marketData (lastMarketData mg)\<rparr>)"

text \<open>
  What happens to a manager over time: snapshots are published, sockets connect and close,
  and a socket's condition changes under the manager's feet.
\<close>

datatype hub_event =
    Publish MarketData
  | Connection ws
  | Close ws
  | SocketChange ws ready_state send_behaviour

fun hubStep :: "(MarketData \<Rightarrow> 'm) \<Rightarrow> 'm manager \<Rightarrow> hub_event \<Rightarrow> 'm manager" where
  "hubStep stringify mg (Publish marketData) = publish stringify marketData mg"
| "hubStep stringify mg (Connection client) = onConnection stringify client mg"
| "hubStep stringify mg (Close client) = onClose client mg"
| "hubStep stringify mg (SocketChange client rs b) =
     mg\<lparr>sockets := (sockets mg)(client := (sockets mg client)\<lparr>readyState := rs, behaviour := b\<rparr>)\<rparr>"

definition runHub :: "(MarketData \<Rightarrow> 'm) \<Rightarrow> hub_event list \<Rightarrow> 'm manager \<Rightarrow> 'm manager" where
  "runHub stringify evs mg = foldl (hubStep stringify) mg evs"

text \<open>The last snapshot broadcast for each symbol, read off the events.\<close>

fun notePublished :: "(string \<rightharpoonup> MarketData) \<Rightarrow> hub_event \<Rightarrow> (string \<rightharpoonup> MarketData)" where
  "notePublished f (Publish marketData) = f(symbol marketData \<mapsto> marketData)"
| "notePublished f _ = f"

definition lastBroadcast :: "hub_event list \<Rightarrow> (string \<rightharpoonup> MarketData)" where
  "lastBroadcast evs = foldl notePublished Map.empty evs"

text \<open>
  Fixtures for concrete runs: a socket just opened, a snapshot without analysis fields, and
  a manager with three open subscribers of which socket 1 throws on \<^verbatim>\<open>send\<close>, and a manager
  with two subscribers of which socket 0 is open with a peer that has stopped reading and
  socket 1 is closing.
\<close>

definition freshSocket :: "'m socket" where
  "freshSocket = \<lparr>readyState = OPEN, behaviour = Accepts, sendCalls = [], outbox = []\<rparr>"

definition snapshot :: "string \<Rightarrow> real \<Rightarrow> int \<Rightarrow> MarketData" where
  "snapshot sy p t =
     \<lparr>symbol = sy, exchange = ''crypto'', price = p, volume24h = 5500, timestamp = t,
      patternAnalysis = None, volatilityMetrics = None, aiAnalysis = None\<rparr>"

definition throwingHub :: "MarketData manager" where
  "throwingHub =
     runHub (\<lambda>marketData. marketData)
       [Connection 0, Connection 1, Connection 2, SocketChange 1 OPEN Throws]
       (newManager (\<lambda>client. freshSocket))"

definition slowAndClosingHub :: "MarketData manager" where
  "slowAndClosingHub =
     runHub (\<lambda>marketData. marketData)
       [Connection 0, Connection 1, SocketChange 0 OPEN Stalls, SocketChange 1 CLOSING Accepts]
       (newManager (\<lambda>client. freshSocket))"

section \<open>Portfolio valuation (WebSocketManager.startPortfolioTracking)\<close>

text \<open>
  A row of the \<^verbatim>\<open>portfolio\<close> table (its \<^verbatim>\<open>id\<close> and \<^verbatim>\<open>lastUpdated\<close> columns play no part).
  The numeric columns arrive as decimal strings; \<open>amount\<close> is the number
  \<^verbatim>\<open>parseFloat(position.amount.toString())\<close> reads from the column.
\<close>

record Portfolio =
  userId :: nat
  symbol :: string
  amount :: real
  averagePrice :: real

definition getUserPortfolio :: "Portfolio list \<Rightarrow> nat \<Rightarrow> Portfolio list" where
  "getUserPortfolio table uid = filter (\<lambda>row. userId row = uid) table"

text \<open>\<^verbatim>\<open>this.lastMarketData.get(position.symbol)?.price || 0\<close>: 0 replaces a missing entry and a falsy price.\<close>

definition currentPriceOf :: "(string \<times> MarketData) list \<Rightarrow> string \<Rightarrow> real" where
  "currentPriceOf lmd key =
     (case map_of lmd key of
        None \<Rightarrow> 0
      | Some marketData \<Rightarrow> if price marketData = 0 then 0 else price marketData)"

text \<open>
  One run of \<^verbatim>\<open>updatePortfolioValue\<close>. The result is the call
  \<^verbatim>\<open>storage.recordPortfolioValue(1, totalValue)\<close> it makes, if it makes one; the user id 1
  is written into the source.
\<close>

definition updatePortfolioValue :: "Portfolio list \<Rightarrow> (string \<times> MarketData) list \<Rightarrow> (nat \<times> real) option" where
  "updatePortfolioValue table lmd =
     (let portfolio = getUserPortfolio table 1
      in if length portfolio > 0
         then let totalValue =
                    foldl (\<lambda>sum position. sum + amount position * currentPriceOf lmd (symbol position))
                      0 portfolio
              in Some (1, totalValue)
         else None)"

chapter \<open>Properties\<close>

section \<open>Price history\<close>

lemma updatePriceHistory_other:
  "s \<noteq> sy \<Longrightarrow> updatePriceHistory sy pr ph s = ph s"
  by (simp add: updatePriceHistory_def Let_def)

lemma updatePriceHistory_same:
  "updatePriceHistory sy pr ph sy =
     Some (let pushed = stored ph sy @ [pr]
           in if length pushed > 100 then tl pushed else pushed)"
  by (simp add: updatePriceHistory_def stored_def Let_def split: option.splits)

lemma slice_last_snoc:
  assumes "length h \<le> 100"
  shows "(let pushed = h @ [p] in if length pushed > 100 then tl pushed else pushed)
           = slice_last 100 (h @ [p])"
proof (cases "length h = 100")
  case True
  then have "h \<noteq> []" by auto
  then obtain x t where h: "h = x # t" by (cases h) auto
  with True show ?thesis by (simp add: slice_last_def Let_def)
next
  case False
  with assms show ?thesis by (simp add: slice_last_def Let_def)
qed

lemma slice_last_append: "slice_last n (slice_last n xs @ ys) = slice_last n (xs @ ys)"
proof (cases "length xs \<le> n")
  case True
  then show ?thesis by (simp add: slice_last_def)
next
  case False
  then have "length xs - n + n = length xs" by simp
  with False show ?thesis
    by (simp add: slice_last_def add.commute)
qed

lemma length_slice_last_min: "length (slice_last n xs) = min n (length xs)"
  by (auto simp: slice_last_def)

lemma stored_appendAll:
  "length (stored ph s) \<le> 100 \<Longrightarrow>
   stored (appendAll evs ph) s = slice_last 100 (stored ph s @ appendedFor s evs)"
proof (induction evs arbitrary: ph)
  case Nil
  then show ?case by (simp add: appendedFor_def slice_last_def)
next
  case (Cons e evs)
  obtain sy pr where e: "e = (sy, pr)" by (cases e)
  show ?case
  proof (cases "sy = s")
    case True
    have st: "stored (updatePriceHistory sy pr ph) s = slice_last 100 (stored ph s @ [pr])"
      using Cons.prems True slice_last_snoc [of "stored ph s" pr]
      by (simp add: stored_def updatePriceHistory_same [unfolded stored_def])
    then have le: "length (stored (updatePriceHistory sy pr ph) s) \<le> 100"
      by (simp add: length_slice_last_min)
    have "stored (appendAll (e # evs) ph) s
            = slice_last 100 (slice_last 100 (stored ph s @ [pr]) @ appendedFor s evs)"
      using Cons.IH [OF le] st e by simp
    also have "\<dots> = slice_last 100 ((stored ph s @ [pr]) @ appendedFor s evs)"
      by (rule slice_last_append)
    finally show ?thesis using e True by (simp add: appendedFor_def)
  next
    case False
    then have "stored (updatePriceHistory sy pr ph) s = stored ph s"
      by (simp add: stored_def updatePriceHistory_other)
    with Cons e False show ?thesis by (simp add: appendedFor_def)
  qed
qed

text \<open>
  Claim C1. Starting from the empty map the constructor creates, after any sequence of
  appends the history stored for a sy is exactly the last \<open>min n 100\<close> of the
  \<open>n\<close> prices appended for that sy, in append order; after 150 appends it is the
  last 100, the oldest 50 having been shifted out.
\<close>

theorem price_history_bounded_fifo:
  "stored (appendAll evs Map.empty) sy = slice_last 100 (appendedFor sy evs)
   \<and> length (stored (appendAll evs Map.empty) sy) = min (length (appendedFor sy evs)) 100
   \<and> (length (appendedFor sy evs) = 150 \<longrightarrow>
        stored (appendAll evs Map.empty) sy = drop 50 (appendedFor sy evs))"
proof -
  have "length (stored Map.empty sy) \<le> 100" by (simp add: stored_def)
  then have eq: "stored (appendAll evs Map.empty) sy = slice_last 100 (appendedFor sy evs)"
    using stored_appendAll [of Map.empty sy evs] by (simp add: stored_def)
  then show ?thesis by (simp add: length_slice_last_min slice_last_def min.commute)
qed

theorem price_history_bounded_fifo_witness:
  "length (appendedFor ''BTC/USD'' (map (\<lambda>i. (''BTC/USD'', real i)) [1..<151])) = 150
   \<and> stored (appendAll (map (\<lambda>i. (''BTC/USD'', real i)) [1..<151]) Map.empty) ''BTC/USD''
       = map real [51..<151]"
proof -
  let ?evs = "map (\<lambda>i. (''BTC/USD'', real i)) [1..<151]"
  have a: "appendedFor ''BTC/USD'' ?evs = map real [1..<151]"
    by (simp add: appendedFor_def filter_map comp_def)
  have len: "length (appendedFor ''BTC/USD'' ?evs) = 150"
    unfolding a by simp
  have d: "drop 50 (map real [1..<151]) = map real [51..<151]"
    by (simp add: drop_map)
  from price_history_bounded_fifo [of ?evs "''BTC/USD''"]
  have "length (appendedFor ''BTC/USD'' ?evs) = 150 \<longrightarrow>
        stored (appendAll ?evs Map.empty) ''BTC/USD'' = drop 50 (appendedFor ''BTC/USD'' ?evs)"
    by blast
  with len have "stored (appendAll ?evs Map.empty) ''BTC/USD'' = drop 50 (appendedFor ''BTC/USD'' ?evs)"
    by blast
  then have "stored (appendAll ?evs Map.empty) ''BTC/USD'' = map real [51..<151]"
    by (simp only: a d)
  with len show ?thesis by blast
qed


section \<open>Pattern detection\<close>

lemma set_foldl_push:
  "set (foldl (pushIfConfident ty data) acc idxs) =
     set acc \<union> {\<lparr>type = ty, confidence = nabs (data ! i), startIndex = i, endIndex = i + 4\<rparr>
                | i. i \<in> set idxs \<and> gt (nabs (data ! i)) (7/10)}"
proof (induction idxs arbitrary: acc)
  case Nil
  then show ?case by simp
next
  case (Cons j idxs)
  show ?case
    unfolding foldl_Cons Cons.IH
    by (auto simp: pushIfConfident_def Let_def)
qed

lemma set_collectPatterns:
  "set (collectPatterns triangleData hsData) =
     {\<lparr>type = triangle, confidence = nabs (triangleData ! i), startIndex = i, endIndex = i + 4\<rparr>
        | i. i < length triangleData \<and> gt (nabs (triangleData ! i)) (7/10)}
     \<union> {\<lparr>type = head_and_shoulders, confidence = nabs (hsData ! i), startIndex = i, endIndex = i + 4\<rparr>
        | i. i < length hsData \<and> gt (nabs (hsData ! i)) (7/10)}"
  by (simp add: collectPatterns_def Let_def set_foldl_push)

text \<open>
  The width of the reshaped window is 1 and the width of either kernel is 5: the output
  would be \<open>1 - 5 + 1 = -3\<close> columns wide, so the first convolution throws, whatever the
  prices are.
\<close>

lemma conv2d_valid_window_throws:
  "conv2d_valid (reshape t [1, PATTERN_WINDOW, 1, 1]) triangleKernel = Inl NegativeOutputSize"
  by (simp add: conv2d_valid_def reshape_def triangleKernel_def Let_def)

lemma detectPatternsBody_throws: "detectPatternsBody prices = Inl NegativeOutputSize"
  unfolding detectPatternsBody_def Let_def conv2d_valid_window_throws by simp

lemma detectPatterns_Nil: "detectPatterns prices = []"
  by (simp add: detectPatterns_def detectPatternsBody_throws)





text \<open>
  The loops themselves do not rescale a response: a response of 4 would be pushed with
  confidence 4.
\<close>

lemma collectPatterns_keeps_large_response:
  "collectPatterns [] [Num 4]
     = [\<lparr>type = head_and_shoulders, confidence = Num 4, startIndex = 0, endIndex = 4\<rparr>]"
  by (simp add: collectPatterns_def pushIfConfident_def Let_def)



text \<open>
  Claim C10. Every pattern returned by \<open>detectPatterns\<close> is a triangle or a
  head-and-shoulders pattern (never a double top or double bottom), has a confidence
  strictly greater than 0.7, ends four positions after its start, and starts at a
  position from 0 to 25. The two loops give every pattern they push the first three
  properties and a start inside the response array they read, whatever the responses
  are; and \<open>detectPatterns\<close> returns no pattern at all, because the convolution throws
  before the loops are reached.
\<close>

theorem detectPatterns_output_invariant:
  "(\<forall>p\<in>set (collectPatterns triangleData hsData).
      (type p = triangle \<or> type p = head_and_shoulders)
      \<and> type p \<noteq> double_top \<and> type p \<noteq> double_bottom
      \<and> gt (confidence p) (7/10)
      \<and> endIndex p = startIndex p + 4
      \<and> (type p = triangle \<longrightarrow> startIndex p < length triangleData)
      \<and> (type p = head_and_shoulders \<longrightarrow> startIndex p < length hsData))
   \<and> (\<forall>p\<in>set (detectPatterns prices).
      (type p = triangle \<or> type p = head_and_shoulders)
      \<and> type p \<noteq> double_top \<and> type p \<noteq> double_bottom
      \<and> gt (confidence p) (7/10)
      \<and> endIndex p = startIndex p + 4
      \<and> 0 \<le> startIndex p \<and> startIndex p \<le> 25)
   \<and> detectPatterns prices = []"
proof -
  have "\<forall>p\<in>set (collectPatterns triangleData hsData).
      (type p = triangle \<or> type p = head_and_shoulders)
      \<and> type p \<noteq> double_top \<and> type p \<noteq> double_bottom
      \<and> gt (confidence p) (7/10)
      \<and> endIndex p = startIndex p + 4
      \<and> (type p = triangle \<longrightarrow> startIndex p < length triangleData)
      \<and> (type p = head_and_shoulders \<longrightarrow> startIndex p < length hsData)"
    unfolding set_collectPatterns by auto
  then show ?thesis by (simp add: detectPatterns_Nil)
qed

theorem detectPatterns_output_invariant_witness:
  "\<lparr>type = head_and_shoulders, confidence = Num 2, startIndex = 1, endIndex = 5\<rparr>
     \<in> set (collectPatterns [Num (9/10), Num (1/10)] [NaN, Num (- 2)])
   \<and> gt (Num 2) (7/10) \<and> (5::nat) = 1 + 4 \<and> (1::nat) < length [NaN, Num (- 2)]
   \<and> detectPatterns (map real [1..<31]) = []"
proof -
  let ?p = "\<lparr>type = head_and_shoulders, confidence = Num 2, startIndex = 1, endIndex = 5\<rparr>"
  note t = detectPatterns_output_invariant
             [of "[Num (9/10), Num (1/10)]" "[NaN, Num (- 2)]" "map real [1..<31]"]
  have m: "?p \<in> set (collectPatterns [Num (9/10), Num (1/10)] [NaN, Num (- 2)])"
    by (simp add: collectPatterns_def pushIfConfident_def Let_def)
  from t have "\<forall>p\<in>set (collectPatterns [Num (9/10), Num (1/10)] [NaN, Num (- 2)]).
      (type p = triangle \<or> type p = head_and_shoulders)
      \<and> type p \<noteq> double_top \<and> type p \<noteq> double_bottom
      \<and> gt (confidence p) (7/10)
      \<and> endIndex p = startIndex p + 4
      \<and> (type p = triangle \<longrightarrow> startIndex p < length [Num (9/10), Num (1/10)])
      \<and> (type p = head_and_shoulders \<longrightarrow> startIndex p < length [NaN, Num (- 2)])"
    by blast
  with m have "gt (confidence ?p) (7/10) \<and> endIndex ?p = startIndex ?p + 4
      \<and> (type ?p = head_and_shoulders \<longrightarrow> startIndex ?p < length [NaN, Num (- 2)])"
    by blast
  moreover from t have "detectPatterns (map real [1..<31]) = []" by blast
  ultimately show ?thesis using m by simp
qed



section \<open>Volatility\<close>

lemma length_logReturns: "length (logReturns prices) = length prices - 1"
  by (simp add: logReturns_def)

lemma varIndexOf_div: "varIndexOf returns = length returns div 20"
proof -
  have "real (length returns) * (5/100) = real (length returns) / real 20" by simp
  then have "\<lfloor>real (length returns) * (5/100)\<rfloor> = int (length returns div 20)"
    by (simp only: floor_divide_of_nat_eq)
  then show ?thesis by (simp add: varIndexOf_def)
qed

text \<open>
  Claim C5. For every price history \<open>calculateVolatility\<close> accepts (at least 30 prices)
  there are at least 29 log returns, so \<open>varIndex = floor (n * 0.05)\<close> is at least 1 (and
  below \<open>n\<close>): the expected shortfall is a quotient by a non-zero \<open>varIndex\<close>, not the
  NaN of a division by zero, and the value at risk reads inside the sorted returns. (In
  binary floating point \<open>29 * 0.05\<close> is 1.45 up to rounding, well above 1.)
\<close>

theorem expected_shortfall_divisor_positive:
  assumes "VOLATILITY_WINDOW \<le> length prices"
  shows "1 \<le> varIndexOf (logReturns prices)
         \<and> varIndexOf (logReturns prices) < length (logReturns prices)
         \<and> (\<exists>m. calculateVolatility prices = Some m
               \<and> expectedShortfall (riskMetrics m) =
                   Num (- foldl (+) 0 (take (varIndexOf (logReturns prices)) (sort (logReturns prices)))
                          / real (varIndexOf (logReturns prices)))
               \<and> valueAtRisk (riskMetrics m) =
                   Num (- (sort (logReturns prices) ! varIndexOf (logReturns prices))))"
proof -
  let ?r = "logReturns prices"
  from assms have n: "29 \<le> length ?r" by (simp add: length_logReturns VOLATILITY_WINDOW_def)
  then have v1: "1 \<le> varIndexOf ?r" by (simp add: varIndexOf_div)
  from n have v2: "varIndexOf ?r < length ?r" by (simp add: varIndexOf_div)
  from v1 have nz: "real (varIndexOf ?r) \<noteq> 0" by simp
  from assms have "\<not> length prices < VOLATILITY_WINDOW" by simp
  then have "\<exists>m. calculateVolatility prices = Some m
               \<and> expectedShortfall (riskMetrics m) =
                   Num (- foldl (+) 0 (take (varIndexOf ?r) (sort ?r)) / real (varIndexOf ?r))
               \<and> valueAtRisk (riskMetrics m) = Num (- (sort ?r ! varIndexOf ?r))"
    using nz v2 by (simp add: calculateVolatility_def Let_def fdiv_def negatedAt_def)
  with v1 v2 show ?thesis by blast
qed

theorem expected_shortfall_divisor_positive_witness:
  "VOLATILITY_WINDOW \<le> length (map real [100..<131])
   \<and> varIndexOf (logReturns (map real [100..<131])) = 1
   \<and> calculateVolatility (map real [100..<131]) \<noteq> None"
proof -
  have h: "VOLATILITY_WINDOW \<le> length (map real [100..<131])"
    by (simp add: VOLATILITY_WINDOW_def)
  have "varIndexOf (logReturns (map real [100..<131])) = 1"
    by (simp add: varIndexOf_div length_logReturns)
  with expected_shortfall_divisor_positive [OF h] h show ?thesis by auto
qed

section \<open>Advisory cache\<close>

lemma analyzeMarket_hit:
  assumes "analysisCache sv s = Some cached"
    and "nowAtCheck env - cache_entry.timestamp cached < CACHE_DURATION"
  shows "analyzeMarket env s sv = (result cached, sv)"
  using assms by (simp add: analyzeMarket_def startCall_def)

lemma analyzeMarket_miss:
  assumes "oracleCalls (snd (analyzeMarket env s sv)) \<noteq> oracleCalls sv"
  shows "analyzeMarket env s sv =
           (case oracleReply env of Reply analysis \<Rightarrow> analysis | Failure \<Rightarrow> defaultResult,
            \<lparr>analysisCache = (analysisCache sv)
               (s \<mapsto> \<lparr>result = (case oracleReply env of Reply analysis \<Rightarrow> analysis
                                    | Failure \<Rightarrow> defaultResult),
                       timestamp = nowAtStore env\<rparr>),
             oracleCalls = oracleCalls sv @ [s]\<rparr>)"
  using assms
  by (cases "oracleReply env")
     (auto simp: analyzeMarket_def startCall_def resumeCall_def tryResume_def Let_def
           split: option.splits if_splits)

text \<open>
  Claim C2. The claim lets any two calls for a symbol less than 10 seconds apart share one
  result without a second oracle invocation. Two things stand against it. The entry's age
  is counted from the moment it was stored, not from the previous call: after a fetch at
  time 0, a call at 9.5 s is served from the cache, and the call one second after that one,
  at 10.5 s, finds the entry expired, invokes the oracle again and returns the new analysis.
  And the entry is written only when the reply has arrived: a call that starts at 1 s while
  the call of time 0 still waits for its reply finds no entry and invokes the oracle too.
\<close>

theorem stale_entry_refetched_within_ten_seconds:
  "fst (analyzeMarket (callAt 9500 (Reply bearish)) ''BTC/USD'' svAfterFetch) = bullish
   \<and> oracleCalls svAfterHit = [''BTC/USD'']
   \<and> (10500::int) - 9500 < CACHE_DURATION
   \<and> fst (analyzeMarket (callAt 10500 (Reply bearish)) ''BTC/USD'' svAfterHit) = bearish
   \<and> oracleCalls (snd (analyzeMarket (callAt 10500 (Reply bearish)) ''BTC/USD'' svAfterHit))
       = [''BTC/USD'', ''BTC/USD'']
   \<and> bearish \<noteq> bullish
   \<and> oracleCalls svDuringFetch = [''BTC/USD'']
   \<and> nowAtCheck overlappingCall - nowAtCheck slowCall < CACHE_DURATION
   \<and> fst (startCall overlappingCall ''BTC/USD'' svDuringFetch) = None
   \<and> oracleCalls (snd (startCall overlappingCall ''BTC/USD'' svDuringFetch))
       = [''BTC/USD'', ''BTC/USD'']
   \<and> fst (resumeCall slowCall ''BTC/USD''
             (snd (startCall overlappingCall ''BTC/USD'' svDuringFetch))) = bullish
   \<and> fst (resumeCall overlappingCall ''BTC/USD''
             (snd (resumeCall slowCall ''BTC/USD''
                    (snd (startCall overlappingCall ''BTC/USD'' svDuringFetch))))) = bearish"
  by (simp add: svAfterHit_def svAfterFetch_def svDuringFetch_def slowCall_def
        overlappingCall_def analyzeMarket_def startCall_def resumeCall_def tryResume_def
        callAt_def newService_def CACHE_DURATION_def bullish_def bearish_def Let_def)

text \<open>
  Claim C2, as amended. If a call of \<open>analyzeMarket\<close> for a symbol consults the oracle
  (it finds no unexpired entry), and the symbol is analysed again after that call has
  stored its outcome and returned, less than 10 seconds after it began, then the second
  call performs no oracle invocation, changes nothing and returns the identical result the
  first call returned and cached. The second call runs on the service as the first call
  left it, and reads the clock no earlier than the first call's store. What other calls
  did to the service while the first call waited for its reply makes no difference (last
  conjunct).
\<close>

theorem cache_dedup_within_ttl:
  assumes consulted: "oracleCalls (snd (analyzeMarket env1 s sv)) \<noteq> oracleCalls sv"
    and clock: "nowAtCheck env1 \<le> nowAtStore env1"
    and afterwards: "nowAtStore env1 \<le> nowAtCheck env2"
    and soon: "nowAtCheck env2 - nowAtCheck env1 < CACHE_DURATION"
  shows "analyzeMarket env2 s (snd (analyzeMarket env1 s sv))
           = (fst (analyzeMarket env1 s sv), snd (analyzeMarket env1 s sv))
         \<and> startCall env2 s (snd (analyzeMarket env1 s sv))
           = (Some (fst (analyzeMarket env1 s sv)), snd (analyzeMarket env1 s sv))
         \<and> oracleCalls (snd (analyzeMarket env2 s (snd (analyzeMarket env1 s sv))))
           = oracleCalls sv @ [s]
         \<and> (\<forall>svb. startCall env2 s (snd (resumeCall env1 s svb))
                    = (Some (fst (resumeCall env1 s svb)), snd (resumeCall env1 s svb)))"
proof -
  let ?r = "case oracleReply env1 of Reply analysis \<Rightarrow> analysis | Failure \<Rightarrow> defaultResult"
  let ?sv1 = "snd (analyzeMarket env1 s sv)"
  note first = analyzeMarket_miss [OF consulted]
  then have c: "analysisCache ?sv1 s = Some \<lparr>result = ?r, timestamp = nowAtStore env1\<rparr>"
    and r: "fst (analyzeMarket env1 s sv) = ?r"
    and o: "oracleCalls ?sv1 = oracleCalls sv @ [s]"
    by simp_all
  from clock soon
  have fresh: "nowAtCheck env2 - cache_entry.timestamp \<lparr>result = ?r, timestamp = nowAtStore env1\<rparr>
                 < CACHE_DURATION"
    by simp
  with c have "analyzeMarket env2 s ?sv1 = (?r, ?sv1)"
    using analyzeMarket_hit [of ?sv1 s _ env2] by fastforce
  moreover from c fresh have "startCall env2 s ?sv1 = (Some ?r, ?sv1)"
    by (simp add: startCall_def)
  moreover have "\<forall>svb. startCall env2 s (snd (resumeCall env1 s svb))
                    = (Some (fst (resumeCall env1 s svb)), snd (resumeCall env1 s svb))"
    using fresh
    by (cases "oracleReply env1") (simp_all add: resumeCall_def tryResume_def startCall_def)
  ultimately show ?thesis using r o by simp
qed

theorem cache_dedup_within_ttl_witness:
  "oracleCalls svAfterFetch \<noteq> oracleCalls newService
   \<and> nowAtStore (callAt 0 (Reply bullish)) \<le> nowAtCheck (callAt 1000 (Reply bearish))
   \<and> (1000::int) - 0 < CACHE_DURATION
   \<and> analyzeMarket (callAt 1000 (Reply bearish)) ''BTC/USD'' svAfterFetch = (bullish, svAfterFetch)
   \<and> oracleCalls svAfterFetch = [''BTC/USD'']"
proof -
  have 1: "oracleCalls (snd (analyzeMarket (callAt 0 (Reply bullish)) ''BTC/USD'' newService))
             \<noteq> oracleCalls newService"
    by (simp add: analyzeMarket_def startCall_def resumeCall_def tryResume_def callAt_def
          newService_def Let_def)
  have 2: "nowAtCheck (callAt 0 (Reply bullish)) \<le> nowAtStore (callAt 0 (Reply bullish))"
    by (simp add: callAt_def)
  have 3: "nowAtStore (callAt 0 (Reply bullish)) \<le> nowAtCheck (callAt 1000 (Reply bearish))"
    by (simp add: callAt_def)
  have 4: "nowAtCheck (callAt 1000 (Reply bearish)) - nowAtCheck (callAt 0 (Reply bullish))
             < CACHE_DURATION"
    by (simp add: callAt_def CACHE_DURATION_def)
  have 5: "fst (analyzeMarket (callAt 0 (Reply bullish)) ''BTC/USD'' newService) = bullish"
    by (simp add: analyzeMarket_def startCall_def resumeCall_def tryResume_def callAt_def
          newService_def Let_def)
  have 6: "oracleCalls svAfterFetch = [''BTC/USD'']"
    by (simp add: svAfterFetch_def analyzeMarket_def startCall_def resumeCall_def tryResume_def
          callAt_def newService_def Let_def)
  from cache_dedup_within_ttl [OF 1 2 3 4] 1 3 5 6 show ?thesis
    by (simp add: svAfterFetch_def CACHE_DURATION_def)
qed

text \<open>
  Claim C3. The claim names the fallback \<open>{hold, 0.5, ["insufficient data"], neutral,
  medium}\<close>. The fallback in the source has another reasoning text.
\<close>

theorem fallback_is_not_the_specified_one:
  "fst (analyzeMarket (callAt 0 Failure) ''BTC/USD'' newService) \<noteq> specifiedFallback
   \<and> reasoning (fst (analyzeMarket (callAt 0 Failure) ''BTC/USD'' newService))
       = [''Technical analysis system is calibrating'']"
  by (simp add: analyzeMarket_def startCall_def resumeCall_def tryResume_def callAt_def newService_def
        defaultResult_def specifiedFallback_def Let_def)

text \<open>
  Claim C3, as amended. Whenever the oracle is consulted and fails, \<open>analyzeMarket\<close>
  returns (the exception is caught, none leaves the function) the fixed fallback
  \<open>{hold, 0.5, ["Technical analysis system is calibrating"], neutral, medium}\<close> and caches
  it under the symbol with the time of the failure; a later call for that symbol less than
  10 seconds after that time returns the fallback from the cache, without invoking the
  oracle and without changing the service.
\<close>

theorem oracle_failure_fallback_cached:
  assumes consulted: "oracleCalls (snd (analyzeMarket env1 s sv)) \<noteq> oracleCalls sv"
    and failed: "oracleReply env1 = Failure"
  shows "fst (analyzeMarket env1 s sv) = defaultResult
         \<and> analysisCache (snd (analyzeMarket env1 s sv)) s
             = Some \<lparr>result = defaultResult, timestamp = nowAtStore env1\<rparr>
         \<and> (nowAtCheck env2 - nowAtStore env1 < CACHE_DURATION \<longrightarrow>
              analyzeMarket env2 s (snd (analyzeMarket env1 s sv))
                = (defaultResult, snd (analyzeMarket env1 s sv)))"
proof -
  let ?sv1 = "snd (analyzeMarket env1 s sv)"
  from analyzeMarket_miss [OF consulted] failed
  have r: "fst (analyzeMarket env1 s sv) = defaultResult"
    and c: "analysisCache ?sv1 s = Some \<lparr>result = defaultResult, timestamp = nowAtStore env1\<rparr>"
    by simp_all
  have "analyzeMarket env2 s ?sv1 = (defaultResult, ?sv1)"
    if "nowAtCheck env2 - nowAtStore env1 < CACHE_DURATION"
    using analyzeMarket_hit [OF c, of env2] that by simp
  with r c show ?thesis by blast
qed

theorem oracle_failure_fallback_cached_witness:
  "oracleReply (callAt 0 Failure) = Failure
   \<and> fst (analyzeMarket (callAt 0 Failure) ''BTC/USD'' newService) = defaultResult
   \<and> analyzeMarket (callAt 9999 (Reply bullish)) ''BTC/USD''
        (snd (analyzeMarket (callAt 0 Failure) ''BTC/USD'' newService))
       = (defaultResult, snd (analyzeMarket (callAt 0 Failure) ''BTC/USD'' newService))"
proof -
  have 1: "oracleCalls (snd (analyzeMarket (callAt 0 Failure) ''BTC/USD'' newService))
             \<noteq> oracleCalls newService"
    by (simp add: analyzeMarket_def startCall_def resumeCall_def tryResume_def callAt_def newService_def Let_def)
  have 2: "oracleReply (callAt 0 Failure) = Failure" by (simp add: callAt_def)
  have 3: "nowAtCheck (callAt 9999 (Reply bullish)) - nowAtStore (callAt 0 Failure) < CACHE_DURATION"
    by (simp add: callAt_def CACHE_DURATION_def)
  from oracle_failure_fallback_cached [OF 1 2, of "callAt 9999 (Reply bullish)"] 2 3
  show ?thesis by blast
qed

section \<open>Portfolio valuation\<close>

lemma foldl_add_sum_list:
  "foldl (\<lambda>sum x. sum + f x) a xs = a + sum_list (map f xs)" for a :: real
  by (induction xs arbitrary: a) simp_all

lemma currentPriceOf_eq:
  "currentPriceOf lmd key = (case map_of lmd key of None \<Rightarrow> 0 | Some marketData \<Rightarrow> price marketData)"
  by (simp add: currentPriceOf_def split: option.splits)

text \<open>
  Claim C7. The claim is made for every user. The tracker asks the store for the holdings
  of user 1 and no other: with the holding BTC 0.5 in the hands of user 2 and the price
  map BTC 95000, nothing is recorded, not 47500.
\<close>

theorem other_users_are_not_valued:
  "updatePortfolioValue
     [\<lparr>userId = 2, symbol = ''BTC'', amount = 0.5, averagePrice = 90000\<rparr>]
     [(''BTC'', snapshot ''BTC'' 95000 1700000000)]
   = None"
  by (simp add: updatePortfolioValue_def getUserPortfolio_def)

text \<open>
  Claim C7, as amended. For every content of the store and every price map, one run of the
  tracker records a value exactly when user 1 has a holding, it records it for user 1, and
  the value is the sum over the holdings of user 1 of quantity times the current price of
  the holding's symbol, a symbol absent from the price map counting 0 (the run goes on).
  With the holding BTC 0.5 of user 1 and the price map BTC 95000 the value is exactly
  47500.
\<close>

theorem portfolio_total_value:
  "updatePortfolioValue table lmd =
     (if getUserPortfolio table 1 = [] then None
      else Some (1, \<Sum>position\<leftarrow>getUserPortfolio table 1.
                     amount position *
                     (case map_of lmd (symbol position) of
                        None \<Rightarrow> 0 | Some marketData \<Rightarrow> price marketData)))"
  by (auto simp: updatePortfolioValue_def Let_def foldl_add_sum_list currentPriceOf_eq)

theorem portfolio_total_value_witness:
  "getUserPortfolio
     [\<lparr>userId = 1, symbol = ''BTC'', amount = 0.5, averagePrice = 90000\<rparr>,
      \<lparr>userId = 1, symbol = ''DOGE'', amount = 1000, averagePrice = 0.1\<rparr>,
      \<lparr>userId = 2, symbol = ''BTC'', amount = 3, averagePrice = 80000\<rparr>] 1 \<noteq> []
   \<and> updatePortfolioValue
     [\<lparr>userId = 1, symbol = ''BTC'', amount = 0.5, averagePrice = 90000\<rparr>,
      \<lparr>userId = 1, symbol = ''DOGE'', amount = 1000, averagePrice = 0.1\<rparr>,
      \<lparr>userId = 2, symbol = ''BTC'', amount = 3, averagePrice = 80000\<rparr>]
     [(''BTC'', snapshot ''BTC'' 95000 1700000000)]
   = Some (1, 47500)"
  using portfolio_total_value
    [of "[\<lparr>userId = 1, symbol = ''BTC'', amount = 0.5, averagePrice = 90000\<rparr>,
          \<lparr>userId = 1, symbol = ''DOGE'', amount = 1000, averagePrice = 0.1\<rparr>,
          \<lparr>userId = 2, symbol = ''BTC'', amount = 3, averagePrice = 80000\<rparr>]"
        "[(''BTC'', snapshot ''BTC'' 95000 1700000000)]"]
  by (simp add: getUserPortfolio_def snapshot_def)

section \<open>Subscriber hub\<close>

lemma wsSend_fields:
  "clients (snd (wsSend c data mg)) = clients mg"
  "lastMarketData (snd (wsSend c data mg)) = lastMarketData mg"
  "sockets (snd (wsSend c data mg)) = (sockets mg)(c := snd (send data (sockets mg c)))"
  "fst (wsSend c data mg) = (behaviour (sockets mg c) \<noteq> Throws)"
  by (auto simp: wsSend_def send_def Let_def split: prod.splits)

lemma send_fields:
  "readyState (snd (send data s)) = readyState s"
  "behaviour (snd (send data s)) = behaviour s"
  "sendCalls (snd (send data s)) = sendCalls s @ [data]"
  "outbox (snd (send data s)) = (if behaviour s = Throws then outbox s else outbox s @ [data])"
  by (simp_all add: send_def Let_def)

lemma foldl_sendInitial:
  "clients (foldl (sendInitial f c) mg es) = clients mg
   \<and> lastMarketData (foldl (sendInitial f c) mg es) = lastMarketData mg
   \<and> (\<forall>d. d \<noteq> c \<longrightarrow> sockets (foldl (sendInitial f c) mg es) d = sockets mg d)
   \<and> readyState (sockets (foldl (sendInitial f c) mg es) c) = readyState (sockets mg c)
   \<and> behaviour (sockets (foldl (sendInitial f c) mg es) c) = behaviour (sockets mg c)
   \<and> sendCalls (sockets (foldl (sendInitial f c) mg es) c)
        = sendCalls (sockets mg c) @ map (\<lambda>e. f (snd e)) es
   \<and> outbox (sockets (foldl (sendInitial f c) mg es) c)
        = (if behaviour (sockets mg c) = Throws then outbox (sockets mg c)
           else outbox (sockets mg c) @ map (\<lambda>e. f (snd e)) es)"
proof (induction es arbitrary: mg)
  case Nil
  then show ?case by simp
next
  case (Cons e es)
  show ?case
    unfolding foldl_Cons
    by (simp add: Cons.IH) (simp add: sendInitial_def wsSend_fields send_fields)
qed

lemma broadcastTo_fields:
  "lastMarketData (broadcastTo data mg c) = lastMarketData mg"
  "sockets (broadcastTo data mg c) =
     (if readyState (sockets mg c) = OPEN
      then (sockets mg)(c := snd (send data (sockets mg c))) else sockets mg)"
  "clients (broadcastTo data mg c) =
     (if readyState (sockets mg c) = OPEN \<and> behaviour (sockets mg c) = Throws
      then removeAll c (clients mg) else clients mg)"
  by (auto simp: broadcastTo_def wsSend_def send_def Let_def split: prod.splits)

lemma foldl_broadcastTo:
  assumes "distinct cs"
  shows "lastMarketData (foldl (broadcastTo data) mg cs) = lastMarketData mg
     \<and> sockets (foldl (broadcastTo data) mg cs) =
         (\<lambda>c. if c \<in> set cs \<and> readyState (sockets mg c) = OPEN
              then snd (send data (sockets mg c)) else sockets mg c)
     \<and> clients (foldl (broadcastTo data) mg cs) =
         filter (\<lambda>c. \<not> (c \<in> set cs \<and> readyState (sockets mg c) = OPEN
                           \<and> behaviour (sockets mg c) = Throws)) (clients mg)"
  using assms
proof (induction cs rule: rev_induct)
  case Nil
  then show ?case by simp
next
  case (snoc c cs)
  then have d: "distinct cs" and nin: "c \<notin> set cs" by simp_all
  let ?m = "foldl (broadcastTo data) mg cs"
  from snoc.IH [OF d] have
    l: "lastMarketData ?m = lastMarketData mg" and
    s: "sockets ?m = (\<lambda>c. if c \<in> set cs \<and> readyState (sockets mg c) = OPEN
              then snd (send data (sockets mg c)) else sockets mg c)" and
    k: "clients ?m = filter (\<lambda>c. \<not> (c \<in> set cs \<and> readyState (sockets mg c) = OPEN
                           \<and> behaviour (sockets mg c) = Throws)) (clients mg)"
    by blast+
  from s nin have sc: "sockets ?m c = sockets mg c" by simp
  have 1: "lastMarketData (foldl (broadcastTo data) mg (cs @ [c])) = lastMarketData mg"
    by (simp add: broadcastTo_fields l)
  have 2: "sockets (foldl (broadcastTo data) mg (cs @ [c])) =
         (\<lambda>x. if x \<in> set (cs @ [c]) \<and> readyState (sockets mg x) = OPEN
              then snd (send data (sockets mg x)) else sockets mg x)"
    using nin by (auto simp: broadcastTo_fields sc s fun_eq_iff)
  have 3: "clients (foldl (broadcastTo data) mg (cs @ [c])) =
         filter (\<lambda>x. \<not> (x \<in> set (cs @ [c]) \<and> readyState (sockets mg x) = OPEN
                           \<and> behaviour (sockets mg x) = Throws)) (clients mg)"
    using nin by (auto simp: broadcastTo_fields sc k removeAll_filter_not_eq intro!: filter_cong)
  from 1 2 3 show ?case by blast
qed


lemma broadcast_fields:
  assumes "distinct (clients mg)"
  shows "lastMarketData (broadcast data mg) = lastMarketData mg"
    and "sockets (broadcast data mg) =
         (\<lambda>c. if c \<in> set (clients mg) \<and> readyState (sockets mg c) = OPEN
              then snd (send data (sockets mg c)) else sockets mg c)"
    and "clients (broadcast data mg) =
         filter (\<lambda>c. \<not> (readyState (sockets mg c) = OPEN \<and> behaviour (sockets mg c) = Throws))
           (clients mg)"
proof -
  note f = foldl_broadcastTo [OF assms, of data mg]
  from f show "lastMarketData (broadcast data mg) = lastMarketData mg"
    by (simp add: broadcast_def)
  from f show "sockets (broadcast data mg) =
         (\<lambda>c. if c \<in> set (clients mg) \<and> readyState (sockets mg c) = OPEN
              then snd (send data (sockets mg c)) else sockets mg c)"
    by (simp add: broadcast_def)
  from f have "clients (broadcast data mg) =
         filter (\<lambda>c. \<not> (c \<in> set (clients mg) \<and> readyState (sockets mg c) = OPEN
                           \<and> behaviour (sockets mg c) = Throws)) (clients mg)"
    by (simp add: broadcast_def)
  also have "\<dots> = filter (\<lambda>c. \<not> (readyState (sockets mg c) = OPEN \<and> behaviour (sockets mg c) = Throws))
           (clients mg)"
    by (rule filter_cong) auto
  finally show "clients (broadcast data mg) =
         filter (\<lambda>c. \<not> (readyState (sockets mg c) = OPEN \<and> behaviour (sockets mg c) = Throws))
           (clients mg)" .
qed

lemma onConnection_fields:
  "clients (onConnection f c mg) = setAdd c (clients mg)"
  "lastMarketData (onConnection f c mg) = lastMarketData mg"
  using foldl_sendInitial [of f c "mg\<lparr>clients := setAdd c (clients mg)\<rparr>" "lastMarketData mg"]
  by (simp_all add: onConnection_def Let_def)

lemma distinct_setAdd: "distinct xs \<Longrightarrow> distinct (setAdd x xs)"
  by (simp add: setAdd_def)

lemma hubStep_inv:
  assumes "distinct (map fst (lastMarketData mg))" "distinct (clients mg)"
  shows "distinct (map fst (lastMarketData (hubStep f mg e)))
         \<and> distinct (clients (hubStep f mg e))
         \<and> map_of (lastMarketData (hubStep f mg e)) = notePublished (map_of (lastMarketData mg)) e"
proof (cases e)
  case (Publish d)
  let ?m = "mg\<lparr>lastMarketData := AList.update (MarketData.symbol d) d (lastMarketData mg)\<rparr>"
  from assms(2) have dc: "distinct (clients ?m)" by simp
  show ?thesis
    using assms broadcast_fields(1,3) [OF dc, of "f d"]
    by (simp add: Publish publish_def distinct_update update_conv')
next
  case (Connection c)
  with assms show ?thesis by (simp add: onConnection_fields distinct_setAdd)
next
  case (Close c)
  with assms show ?thesis by (simp add: onClose_def distinct_removeAll)
next
  case (SocketChange c rs b)
  with assms show ?thesis by simp
qed

lemma runHub_inv:
  assumes "distinct (map fst (lastMarketData mg))" "distinct (clients mg)"
  shows "distinct (map fst (lastMarketData (runHub f evs mg)))
         \<and> distinct (clients (runHub f evs mg))
         \<and> map_of (lastMarketData (runHub f evs mg))
             = foldl notePublished (map_of (lastMarketData mg)) evs"
  using assms
proof (induction evs arbitrary: mg)
  case Nil
  then show ?case by (simp add: runHub_def)
next
  case (Cons e evs)
  from hubStep_inv [OF Cons.prems, of f e] Cons.IH [of "hubStep f mg e"]
  show ?case by (simp add: runHub_def)
qed

lemmas hub_eval =
  runHub_def newManager_def freshSocket_def snapshot_def publish_def broadcast_def
  broadcastTo_def wsSend_def send_def onConnection_def sendInitial_def onClose_def
  setAdd_def Let_def

text \<open>
  Claim C8. Whatever has happened to the manager since it was created, when a subscriber
  connects the handler at once passes to its \<open>send\<close> exactly one frame per entry of the
  last-snapshot map, in the map's order, and nothing else; if the socket's \<open>send\<close> does
  not throw, these frames are what the socket takes. The map has one entry per symbol, and
  the entry of a symbol is the last snapshot broadcast for it, so each frame is that
  snapshot, serialised as the broadcast serialised it. Nothing older is sent.
\<close>

theorem catch_up_on_subscribe:
  "sendCalls (sockets (onConnection stringify client (runHub stringify evs (newManager socks))) client)
     = sendCalls (sockets (runHub stringify evs (newManager socks)) client)
       @ map (\<lambda>entry. stringify (snd entry)) (lastMarketData (runHub stringify evs (newManager socks)))
   \<and> (behaviour (sockets (runHub stringify evs (newManager socks)) client) \<noteq> Throws \<longrightarrow>
        outbox (sockets (onConnection stringify client (runHub stringify evs (newManager socks))) client)
          = outbox (sockets (runHub stringify evs (newManager socks)) client)
            @ map (\<lambda>entry. stringify (snd entry)) (lastMarketData (runHub stringify evs (newManager socks))))
   \<and> distinct (map fst (lastMarketData (runHub stringify evs (newManager socks))))
   \<and> map_of (lastMarketData (runHub stringify evs (newManager socks))) = lastBroadcast evs
   \<and> client \<in> set (clients (onConnection stringify client (runHub stringify evs (newManager socks))))"
proof -
  let ?mg = "runHub stringify evs (newManager socks)"
  have "distinct (map fst (lastMarketData (newManager socks)))" "distinct (clients (newManager socks))"
    by (simp_all add: newManager_def)
  from runHub_inv [OF this, of stringify evs]
  have inv: "distinct (map fst (lastMarketData ?mg))" "map_of (lastMarketData ?mg) = lastBroadcast evs"
    by (simp_all add: lastBroadcast_def newManager_def)
  note s = foldl_sendInitial [of stringify client "?mg\<lparr>clients := setAdd client (clients ?mg)\<rparr>"
               "lastMarketData ?mg"]
  from s have 1: "sendCalls (sockets (onConnection stringify client ?mg) client)
     = sendCalls (sockets ?mg client) @ map (\<lambda>entry. stringify (snd entry)) (lastMarketData ?mg)"
    by (simp add: onConnection_def Let_def)
  from s have 2: "behaviour (sockets ?mg client) \<noteq> Throws \<longrightarrow>
        outbox (sockets (onConnection stringify client ?mg) client)
          = outbox (sockets ?mg client) @ map (\<lambda>entry. stringify (snd entry)) (lastMarketData ?mg)"
    by (simp add: onConnection_def Let_def)
  have 3: "client \<in> set (clients (onConnection stringify client ?mg))"
    by (simp add: onConnection_fields setAdd_def)
  from 1 2 3 inv show ?thesis by blast
qed

theorem catch_up_on_subscribe_witness:
  "behaviour (sockets (runHub (\<lambda>d. d)
       [Connection 3, Publish (snapshot ''BTC/USD'' 95000 1), Publish (snapshot ''ETH/USD'' 3200 1),
        Publish (snapshot ''BTC/USD'' 95010 2)] (newManager (\<lambda>c. freshSocket))) 7) \<noteq> Throws
   \<and> outbox (sockets (onConnection (\<lambda>d. d) 7 (runHub (\<lambda>d. d)
       [Connection 3, Publish (snapshot ''BTC/USD'' 95000 1), Publish (snapshot ''ETH/USD'' 3200 1),
        Publish (snapshot ''BTC/USD'' 95010 2)] (newManager (\<lambda>c. freshSocket)))) 7)
     = [snapshot ''BTC/USD'' 95010 2, snapshot ''ETH/USD'' 3200 1]"
proof -
  let ?evs = "[Connection 3, Publish (snapshot ''BTC/USD'' 95000 1),
               Publish (snapshot ''ETH/USD'' 3200 1), Publish (snapshot ''BTC/USD'' 95010 2)]"
  let ?mg = "runHub (\<lambda>d. d) ?evs (newManager (\<lambda>c. freshSocket)) :: MarketData manager"
  have b: "behaviour (sockets ?mg 7) \<noteq> Throws" by (simp add: hub_eval)
  have o: "outbox (sockets ?mg 7) = []" by (simp add: hub_eval)
  have l: "lastMarketData ?mg
             = [(''BTC/USD'', snapshot ''BTC/USD'' 95010 2), (''ETH/USD'', snapshot ''ETH/USD'' 3200 1)]"
    by (simp add: hub_eval)
  from catch_up_on_subscribe [of "\<lambda>d. d" 7 ?evs "\<lambda>c. freshSocket"] b
  have "outbox (sockets (onConnection (\<lambda>d. d) 7 ?mg) 7)
          = outbox (sockets ?mg 7) @ map (\<lambda>entry. snd entry) (lastMarketData ?mg)"
    by blast
  with b show ?thesis unfolding o l by simp
qed

text \<open>
  Claim C9. The claim has every channel that does not take the push, or that is too slow,
  out of the subscriber set when the broadcast ends. The source has no timer around
  \<open>send\<close> and skips a socket that is not open without deleting it: an open socket whose
  peer has stopped reading, and a closing socket, are both still subscribed afterwards.
\<close>

theorem slow_and_closing_sockets_stay_subscribed:
  "clients (broadcast (snapshot ''BTC/USD'' 95000 1) slowAndClosingHub) = [0, 1]
   \<and> readyState (sockets slowAndClosingHub 0) = OPEN
   \<and> behaviour (sockets slowAndClosingHub 0) = Stalls
   \<and> readyState (sockets slowAndClosingHub 1) = CLOSING"
  by (simp add: slowAndClosingHub_def hub_eval)

text \<open>
  Claim C9, as amended. For every broadcast, the open sockets whose \<open>send\<close> throws are
  exactly the subscribers removed; an open socket whose \<open>send\<close> returns takes the frame
  and stays subscribed whatever the other sockets do, so a failing subscriber does not keep
  the frame from the others; a socket that is not open, or not subscribed, is not touched.
\<close>

theorem broadcast_removes_throwing_sockets:
  assumes "distinct (clients mg)"
  shows "clients (broadcast data mg)
           = filter (\<lambda>c. \<not> (readyState (sockets mg c) = OPEN \<and> behaviour (sockets mg c) = Throws))
               (clients mg)
   \<and> (\<forall>c\<in>set (clients mg).
         readyState (sockets mg c) = OPEN \<and> behaviour (sockets mg c) = Throws \<longrightarrow>
           c \<notin> set (clients (broadcast data mg)))
   \<and> (\<forall>c\<in>set (clients mg).
         readyState (sockets mg c) = OPEN \<and> behaviour (sockets mg c) \<noteq> Throws \<longrightarrow>
           c \<in> set (clients (broadcast data mg))
           \<and> outbox (sockets (broadcast data mg) c) = outbox (sockets mg c) @ [data])
   \<and> (\<forall>c. c \<notin> set (clients mg) \<or> readyState (sockets mg c) \<noteq> OPEN \<longrightarrow>
         sockets (broadcast data mg) c = sockets mg c)"
proof -
  note f = broadcast_fields [OF assms, of data]
  have 1: "clients (broadcast data mg)
           = filter (\<lambda>c. \<not> (readyState (sockets mg c) = OPEN \<and> behaviour (sockets mg c) = Throws))
               (clients mg)"
    by (rule f(3))
  have 2: "\<forall>c\<in>set (clients mg).
         readyState (sockets mg c) = OPEN \<and> behaviour (sockets mg c) = Throws \<longrightarrow>
           c \<notin> set (clients (broadcast data mg))"
    by (simp add: f(3))
  have 3: "\<forall>c\<in>set (clients mg).
         readyState (sockets mg c) = OPEN \<and> behaviour (sockets mg c) \<noteq> Throws \<longrightarrow>
           c \<in> set (clients (broadcast data mg))
           \<and> outbox (sockets (broadcast data mg) c) = outbox (sockets mg c) @ [data]"
    by (simp add: f(2,3) send_fields)
  have 4: "\<forall>c. c \<notin> set (clients mg) \<or> readyState (sockets mg c) \<noteq> OPEN \<longrightarrow>
         sockets (broadcast data mg) c = sockets mg c"
    by (auto simp: f(2))
  from 1 2 3 4 show ?thesis by blast
qed

theorem broadcast_removes_throwing_sockets_witness:
  "distinct (clients throwingHub)
   \<and> clients throwingHub = [0, 1, 2]
   \<and> behaviour (sockets throwingHub 1) = Throws
   \<and> clients (broadcast (snapshot ''BTC/USD'' 95000 1) throwingHub) = [0, 2]
   \<and> outbox (sockets (broadcast (snapshot ''BTC/USD'' 95000 1) throwingHub) 2)
       = [snapshot ''BTC/USD'' 95000 1]"
proof -
  have c: "clients throwingHub = [0, 1, 2]" by (simp add: throwingHub_def hub_eval)
  then have d: "distinct (clients throwingHub)" by simp
  have s: "sockets throwingHub 0 = freshSocket"
          "sockets throwingHub 1 = freshSocket\<lparr>behaviour := Throws\<rparr>"
          "sockets throwingHub 2 = freshSocket"
    by (simp_all add: throwingHub_def hub_eval)
  have s1: "sockets throwingHub (Suc 0) = freshSocket\<lparr>behaviour := Throws\<rparr>"
    using s(2) by simp
  note t = broadcast_removes_throwing_sockets [OF d, of "snapshot ''BTC/USD'' 95000 1"]
  from t have "clients (broadcast (snapshot ''BTC/USD'' 95000 1) throwingHub)
           = filter (\<lambda>c. \<not> (readyState (sockets throwingHub c) = OPEN
                              \<and> behaviour (sockets throwingHub c) = Throws))
               (clients throwingHub)"
    by blast
  then have k: "clients (broadcast (snapshot ''BTC/USD'' 95000 1) throwingHub) = [0, 2]"
    by (simp add: c s s1 freshSocket_def)
  from t have "\<forall>c\<in>set (clients throwingHub).
         readyState (sockets throwingHub c) = OPEN \<and> behaviour (sockets throwingHub c) \<noteq> Throws \<longrightarrow>
           c \<in> set (clients (broadcast (snapshot ''BTC/USD'' 95000 1) throwingHub))
           \<and> outbox (sockets (broadcast (snapshot ''BTC/USD'' 95000 1) throwingHub) c)
               = outbox (sockets throwingHub c) @ [snapshot ''BTC/USD'' 95000 1]"
    by blast
  moreover have "2 \<in> set (clients throwingHub)" by (simp add: c)
  moreover have "readyState (sockets throwingHub 2) = OPEN \<and> behaviour (sockets throwingHub 2) \<noteq> Throws"
    by (simp add: s freshSocket_def)
  ultimately have "outbox (sockets (broadcast (snapshot ''BTC/USD'' 95000 1) throwingHub) 2)
       = outbox (sockets throwingHub 2) @ [snapshot ''BTC/USD'' 95000 1]"
    by blast
  then have o: "outbox (sockets (broadcast (snapshot ''BTC/USD'' 95000 1) throwingHub) 2)
       = [snapshot ''BTC/USD'' 95000 1]"
    by (simp add: s freshSocket_def)
  have b: "behaviour (sockets throwingHub 1) = Throws" by (simp add: s1)
  from c d b k o show ?thesis by blast
qed

end
